theory Spec2Isabelle
  imports Complex_Main "HOL-Library.Multiset"
begin

section \<open>The sign-language detector: data model\<close>

text \<open>
  The embedding follows \<^verbatim>\<open>src/Ctrl-A/sign_language_server.py\<close> and, for the stand-alone
  script it wraps, \<^verbatim>\<open>src/prediction.py\<close>. Python floats are modelled by \<^typ>\<open>real\<close>:
  the code only subtracts and compares them. Python ints are \<^typ>\<open>int\<close>. An exception
  raised by the wrapped model inside the \<^verbatim>\<open>try\<close> block is the value \<open>None\<close> of the
  model's result. The drawing calls of OpenCV and MediaPipe write to the frame only and are
  left out; the input of a frame is what \<^verbatim>\<open>hands.process\<close> returned for it.
\<close>

type_synonym landmark = "real \<times> real"

type_synonym hand_landmarks = "landmark list"

text \<open>
  \<^verbatim>\<open>results.multi_hand_landmarks\<close> is \<^verbatim>\<open>None\<close> or a list of hands;
  \<^verbatim>\<open>results.multi_handedness\<close> is absent (\<open>None\<close>) or a list whose entry \<open>idx\<close> gives the
  label \<^verbatim>\<open>classification[0].label\<close>, \<open>None\<close> standing for an entry whose access raises.
\<close>

record mp_results =
  multi_hand_landmarks :: "hand_landmarks list option"
  multi_handedness :: "string option list option"

text \<open>
  The loaded model: one that has \<^verbatim>\<open>predict_proba\<close> (returning the ravelled probability
  vector) or one that has \<^verbatim>\<open>predict\<close> only (returning the label index).
\<close>

datatype classifier =
  ProbaModel "real list \<Rightarrow> real list option"
| HardModel "real list \<Rightarrow> int option"

text \<open>The payload of \<^verbatim>\<open>socketio.emit('sign_detected', {...})\<close>.\<close>

record sign_detected =
  character :: string
  confidence :: "real option"
  text_buffer_joined :: string
  action :: "string option"
  top3 :: "(string \<times> real) list"

text \<open>
  The module's globals. \<open>emitted\<close> is the log of \<^verbatim>\<open>sign_detected\<close> events sent so far and
  \<open>threads_started\<close> counts the calls of \<^verbatim>\<open>Thread.start\<close>; \<open>detection_thread\<close> holds the number
  of the thread object created last.
\<close>

record server_state =
  model :: "classifier option"
  is_detection_active :: bool
  detection_thread :: "nat option"
  last_predicted_character :: "string option"
  text_buffer :: "string list"
  frames_since_last_char :: int
  emitted :: "sign_detected list"
  threads_started :: nat

record response =
  success :: bool
  message :: string

datatype info = Message string | Confidence "real option"

datatype feature_result = NoHands | NoLandmarks | DataAux "real list"

section \<open>Constants and tables\<close>

definition repeat_cooldown_frames :: int where
  "repeat_cooldown_frames = 5"

definition CONFIDENCE_THRESHOLD :: real where
  "CONFIDENCE_THRESHOLD = 0.65"

definition ACTION_GESTURES :: "string \<rightharpoonup> string" where
  "ACTION_GESTURES = map_of
     [(''SPACE'', ''SPACE''), (''BACKSPACE'', ''BACKSPACE''), (''DELETE'', ''DELETE''),
      (''S'', ''SPACE''), (''B'', ''BACKSPACE''), (''D'', ''DELETE'')]"

definition PER_CLASS_THRESHOLDS :: "string \<rightharpoonup> real" where
  "PER_CLASS_THRESHOLDS = map_of
     [(''C'', 0.22), (''D'', 0.45), (''U'', 0.40), (''N'', 0.20),
      (''2'', 0.50), (''1'', 0.50), (''I'', 0.30)]"

definition labels_list :: "(int \<times> string) list" where
  "labels_list =
     [(0, ''1''), (1, ''2''), (2, ''3''), (3, ''4''), (4, ''5''), (5, ''6''), (6, ''7''),
      (7, ''8''), (8, ''9''), (9, ''A''), (10, ''B''), (11, ''C''), (12, ''D''), (13, ''E''),
      (14, ''F''), (15, ''G''), (16, ''H''), (17, ''I''), (18, ''J''), (19, ''K''),
      (20, ''L''), (21, ''M''), (22, ''N''), (23, ''O''), (24, ''P''), (25, ''Q''),
      (26, ''R''), (27, ''S''), (28, ''T''), (29, ''U''), (30, ''V''), (31, ''W''),
      (32, ''X''), (33, ''Y''), (34, ''Z'')]"

definition labels_dict :: "int \<rightharpoonup> string" where
  "labels_dict = map_of labels_list"

section \<open>Feature builder (lines 110-167 of process_frame)\<close>

definition hand_label :: "string option list option \<Rightarrow> nat \<Rightarrow> string option" where
  "hand_label handedness_list idx =
     (case handedness_list of
        None \<Rightarrow> None
      | Some hl \<Rightarrow> if hl \<noteq> [] \<and> idx < length hl then hl ! idx else None)"

definition pair_hands ::
  "string option list option \<Rightarrow> hand_landmarks list \<Rightarrow> (string option \<times> hand_landmarks) list" where
  "pair_hands handedness_list hs =
     map (\<lambda>(idx, hand). (hand_label handedness_list idx, hand)) (enumerate 0 hs)"

definition sort_key_item :: "string option \<times> hand_landmarks \<Rightarrow> nat" where
  "sort_key_item item =
     (if fst item = Some ''Left'' then 0 else if fst item = Some ''Right'' then 1 else 2)"

text \<open>\<^verbatim>\<open>paired.sort(key=sort_key)\<close>: Python's sort is stable, as is \<^const>\<open>sort_key\<close>.\<close>

definition sort_paired ::
  "(string option \<times> hand_landmarks) list \<Rightarrow> (string option \<times> hand_landmarks) list" where
  "sort_paired paired = sort_key sort_key_item paired"

definition hand_feats :: "hand_landmarks \<Rightarrow> real list" where
  "hand_feats lms =
     (let min_x = min_list (map fst lms); min_y = min_list (map snd lms)
      in concat (map (\<lambda>lm. [fst lm - min_x, snd lm - min_y]) lms))"

text \<open>One round of the loop over \<^verbatim>\<open>paired[:2]\<close>; the accumulator is \<open>(x_, y_, per_hand_features)\<close>.\<close>

definition per_hand_step ::
  "real list \<times> real list \<times> real list list \<Rightarrow> string option \<times> hand_landmarks
     \<Rightarrow> real list \<times> real list \<times> real list list" where
  "per_hand_step acc item =
     (case acc of (x_, y_, per_hand_features) \<Rightarrow>
        (let xs = map fst (snd item); ys = map snd (snd item)
         in if xs \<noteq> [] \<and> ys \<noteq> []
            then (x_ @ xs, y_ @ ys, per_hand_features @ [hand_feats (snd item)])
            else acc))"

definition hand_feat_len :: nat where
  "hand_feat_len = 21 * 2"

text \<open>\<^verbatim>\<open>while len(per_hand_features) < 2: per_hand_features.append([0.0] * hand_feat_len)\<close>\<close>

function pad_two_hands :: "real list list \<Rightarrow> real list list" where
  "pad_two_hands per_hand_features =
     (if length per_hand_features < 2
      then pad_two_hands (per_hand_features @ [replicate hand_feat_len 0])
      else per_hand_features)"
  by pat_completeness auto
termination
  by (relation "measure (\<lambda>phf. 2 - length phf)") auto

definition build_features :: "mp_results \<Rightarrow> feature_result" where
  "build_features results =
     (case multi_hand_landmarks results of
        None \<Rightarrow> NoHands
      | Some hs \<Rightarrow>
          if hs = [] then NoHands
          else
            (case foldl per_hand_step ([], [], [])
                    (take 2 (sort_paired (pair_hands (multi_handedness results) hs))) of
               (x_, y_, per_hand_features) \<Rightarrow>
                 if x_ = [] \<or> y_ = [] then NoLandmarks
                 else (let padded = pad_two_hands per_hand_features
                       in DataAux (padded ! 0 @ padded ! 1))))"

section \<open>Classifier adapter (lines 171-194)\<close>

definition np_max :: "real list \<Rightarrow> real" where
  "np_max v = fold max (tl v) (hd v)"

text \<open>\<^verbatim>\<open>np.argmax\<close>: the first index holding the maximum.\<close>

definition np_argmax :: "real list \<Rightarrow> nat" where
  "np_argmax v = length (takeWhile (\<lambda>p. p \<noteq> np_max v) v)"

definition label_of :: "int \<Rightarrow> string" where
  "label_of predicted_label =
     (case labels_dict predicted_label of Some c \<Rightarrow> c | None \<Rightarrow> ''Unknown'')"

text \<open>
  The result is \<open>(predicted_character, proba, proba_vec)\<close>. \<^verbatim>\<open>np.argmax\<close> raises on an empty
  vector, after \<^verbatim>\<open>proba_vec\<close> has been assigned.
\<close>

definition classify :: "classifier \<Rightarrow> real list \<Rightarrow> string \<times> real option \<times> real list option" where
  "classify m data_aux =
     (case m of
        ProbaModel predict_proba \<Rightarrow>
          (case predict_proba data_aux of
             None \<Rightarrow> (''Unknown'', None, None)
           | Some proba_vec \<Rightarrow>
               if proba_vec = [] then (''Unknown'', None, Some [])
               else (label_of (int (np_argmax proba_vec)), Some (np_max proba_vec), Some proba_vec))
      | HardModel predict \<Rightarrow>
          (case predict data_aux of
             None \<Rightarrow> (''Unknown'', None, None)
           | Some predicted_label \<Rightarrow> (label_of predicted_label, None, None)))"

section \<open>Confidence gate (lines 196-200)\<close>

definition class_threshold :: "string \<Rightarrow> real" where
  "class_threshold predicted_character =
     (case PER_CLASS_THRESHOLDS predicted_character of
        Some t \<Rightarrow> t
      | None \<Rightarrow> CONFIDENCE_THRESHOLD)"

definition passed_threshold :: "string \<Rightarrow> real option \<Rightarrow> bool" where
  "passed_threshold predicted_character proba =
     (case proba of
        None \<Rightarrow> True
      | Some p \<Rightarrow> p \<ge> class_threshold predicted_character)"

section \<open>Top-3 candidates (lines 217-222)\<close>

text \<open>
  \<^verbatim>\<open>np.argsort\<close> is NumPy's, not this repository's: it returns the indices that sort the
  vector in ascending order, and its default sort is not stable, so the order it gives to
  equal probabilities is not fixed. The functions below take it as the parameter
  \<open>np_argsort\<close>; \<open>argsort_contract\<close> is what NumPy promises of it.
\<close>

definition argsort_contract :: "(real list \<Rightarrow> nat list) \<Rightarrow> bool" where
  "argsort_contract np_argsort \<longleftrightarrow>
     (\<forall>v. distinct (np_argsort v) \<and> set (np_argsort v) = {0..<length v} \<and>
          sorted (map (\<lambda>idx. v ! idx) (np_argsort v)))"

text \<open>\<^verbatim>\<open>np.argsort(proba_vec)[-3:][::-1]\<close>\<close>

definition top3_indices :: "(real list \<Rightarrow> nat list) \<Rightarrow> real list \<Rightarrow> nat list" where
  "top3_indices np_argsort v =
     (let idxs = np_argsort v in rev (drop (length idxs - 3) idxs))"

function str_nat :: "nat \<Rightarrow> string" where
  "str_nat n =
     (if n < 10 then [char_of (48 + n)]
      else str_nat (n div 10) @ [char_of (48 + n mod 10)])"
  by pat_completeness auto
termination
  by (relation "measure id") auto

definition top3_of ::
  "(real list \<Rightarrow> nat list) \<Rightarrow> real list option \<Rightarrow> (string \<times> real) list" where
  "top3_of np_argsort proba_vec =
     (case proba_vec of
        None \<Rightarrow> []
      | Some v \<Rightarrow>
          (let top3_chars =
                 map (\<lambda>idx. case labels_dict (int idx) of
                               Some c \<Rightarrow> c
                             | None \<Rightarrow> ''?'' @ str_nat idx) (top3_indices np_argsort v);
               top3_probs = map (\<lambda>idx. v ! idx) (top3_indices np_argsort v)
           in zip top3_chars top3_probs))"

section \<open>Debounce, action dispatch and notification (lines 226-252)\<close>

definition join :: "string list \<Rightarrow> string" where
  "join buf = concat buf"

definition dispatch :: "string option \<Rightarrow> string \<Rightarrow> string list \<Rightarrow> string list" where
  "dispatch act predicted_character buf =
     (if act = Some ''SPACE'' then buf @ ['' '']
      else if act = Some ''BACKSPACE'' then (if buf \<noteq> [] then butlast buf else buf)
      else if act = Some ''DELETE'' then []
      else buf @ [predicted_character])"

definition should_emit :: "string \<Rightarrow> real option \<Rightarrow> server_state \<Rightarrow> bool" where
  "should_emit predicted_character proba s \<longleftrightarrow>
     predicted_character \<noteq> ''Unknown'' \<and>
     passed_threshold predicted_character proba \<and>
     (Some predicted_character \<noteq> last_predicted_character s \<or>
      frames_since_last_char s \<ge> repeat_cooldown_frames)"

definition debounce_update ::
  "(real list \<Rightarrow> nat list) \<Rightarrow> string \<Rightarrow> real option \<Rightarrow> real list option \<Rightarrow> server_state \<Rightarrow> server_state" where
  "debounce_update np_argsort predicted_character proba proba_vec s =
     (if should_emit predicted_character proba s
      then
        (let act = ACTION_GESTURES predicted_character;
             buf = dispatch act predicted_character (text_buffer s)
         in s\<lparr>text_buffer := buf,
              last_predicted_character := Some predicted_character,
              frames_since_last_char := 0,
              emitted := emitted s @
                [\<lparr>character = predicted_character,
                  confidence = proba,
                  text_buffer_joined = join buf,
                  action = act,
                  top3 = top3_of np_argsort proba_vec\<rparr>]\<rparr>)
      else s)"

text \<open>
  A frame that reaches the classifier: the counter goes up first (line 171), then the
  classification \<open>(predicted_character, proba, proba_vec)\<close> is gated and debounced.
\<close>

definition processed_frame ::
  "(real list \<Rightarrow> nat list) \<Rightarrow> string \<times> real option \<times> real list option
     \<Rightarrow> server_state \<Rightarrow> server_state" where
  "processed_frame np_argsort c s =
     (case c of (predicted_character, proba, proba_vec) \<Rightarrow>
        debounce_update np_argsort predicted_character proba proba_vec
          (s\<lparr>frames_since_last_char := frames_since_last_char s + 1\<rparr>))"

definition process_frame ::
  "(real list \<Rightarrow> nat list) \<Rightarrow> mp_results \<Rightarrow> server_state \<Rightarrow> (string option \<times> info) \<times> server_state" where
  "process_frame np_argsort results s =
     (case model s of
        None \<Rightarrow> ((None, Message ''Model not loaded''), s)
      | Some m \<Rightarrow>
          (case build_features results of
             NoHands \<Rightarrow> ((None, Confidence None), s)
           | NoLandmarks \<Rightarrow> ((None, Message ''No landmarks detected''), s)
           | DataAux data_aux \<Rightarrow>
               if length data_aux = 84
               then (let c = classify m data_aux
                     in ((Some (fst c), Confidence (fst (snd c))), processed_frame np_argsort c s))
               else ((None, Confidence None), s)))"

section \<open>Control surface (lines 341-379)\<close>

definition start_detection :: "server_state \<Rightarrow> response \<times> server_state" where
  "start_detection s =
     (if is_detection_active s
      then (\<lparr>success = False, message = ''Detection already active''\<rparr>, s)
      else if model s = None
      then (\<lparr>success = False, message = ''Model not loaded''\<rparr>, s)
      else (\<lparr>success = True, message = ''Detection started''\<rparr>,
            s\<lparr>is_detection_active := True,
              text_buffer := [],
              detection_thread := Some (threads_started s),
              threads_started := Suc (threads_started s)\<rparr>))"

definition stop_detection :: "server_state \<Rightarrow> response \<times> server_state" where
  "stop_detection s =
     (\<lparr>success = True, message = ''Detection stopped''\<rparr>, s\<lparr>is_detection_active := False\<rparr>)"

definition get_text_buffer :: "server_state \<Rightarrow> string" where
  "get_text_buffer s = join (text_buffer s)"

definition clear_buffer :: "server_state \<Rightarrow> response \<times> server_state" where
  "clear_buffer s =
     (\<lparr>success = True, message = ''Buffer cleared''\<rparr>, s\<lparr>text_buffer := []\<rparr>)"

text \<open>The globals as the module leaves them after import, \<open>m\<close> being what \<^verbatim>\<open>_load_model\<close> returned.\<close>

definition initial_state :: "classifier option \<Rightarrow> server_state" where
  "initial_state m =
     \<lparr>model = m,
      is_detection_active = False,
      detection_thread = None,
      last_predicted_character = None,
      text_buffer = [],
      frames_since_last_char = 0,
      emitted = [],
      threads_started = 0\<rparr>"

text \<open>
  Every state the server can be in: the state after import, changed by the three
  state-changing endpoints and by the worker's calls of \<^verbatim>\<open>process_frame\<close>.
\<close>

inductive reachable :: "(real list \<Rightarrow> nat list) \<Rightarrow> server_state \<Rightarrow> bool"
  for np_argsort :: "real list \<Rightarrow> nat list" where
  after_import: "reachable np_argsort (initial_state m)"
| after_start: "reachable np_argsort s \<Longrightarrow> reachable np_argsort (snd (start_detection s))"
| after_stop: "reachable np_argsort s \<Longrightarrow> reachable np_argsort (snd (stop_detection s))"
| after_clear: "reachable np_argsort s \<Longrightarrow> reachable np_argsort (snd (clear_buffer s))"
| after_frame:
    "reachable np_argsort s \<Longrightarrow> reachable np_argsort (snd (process_frame np_argsort results s))"

section \<open>The stand-alone script prediction.py (lines 79-244)\<close>

text \<open>
  The script keeps the same three globals and shares the feature builder, the classifier
  call, the gate and the action table with the server, line for line. Its loop body differs
  in the test that guards the buffer update (line 195) and in the keyboard handling. One
  iteration of the loop is modelled; the loop ends on a failed read or on the key \<open>q\<close>,
  neither of which changes the three globals.
\<close>

record script_state =
  script_last_predicted_character :: "string option"
  script_text_buffer :: "string list"
  script_frames_since_last_char :: int

definition script_initial_state :: script_state where
  "script_initial_state =
     \<lparr>script_last_predicted_character = None,
      script_text_buffer = [],
      script_frames_since_last_char = repeat_cooldown_frames\<rparr>"

text \<open>Lines 159-208, for the classification \<open>(predicted_character, proba, proba_vec)\<close>.\<close>

definition script_classified ::
  "string \<times> real option \<times> real list option \<Rightarrow> script_state \<Rightarrow> script_state" where
  "script_classified c s =
     (case c of (predicted_character, proba, proba_vec) \<Rightarrow>
        (let s1 = s\<lparr>script_frames_since_last_char := script_frames_since_last_char s + 1\<rparr>
         in if Some predicted_character \<noteq> script_last_predicted_character s1 \<and>
               predicted_character \<noteq> ''Unknown'' \<and>
               passed_threshold predicted_character proba
            then s1\<lparr>script_text_buffer :=
                      dispatch (ACTION_GESTURES predicted_character) predicted_character
                        (script_text_buffer s1),
                    script_last_predicted_character := Some predicted_character,
                    script_frames_since_last_char := 0\<rparr>
            else s1))"

text \<open>Lines 231-242: \<open>key\<close> is \<^verbatim>\<open>cv2.waitKey(1) & 0xFF\<close>.\<close>

definition script_key :: "int \<Rightarrow> script_state \<Rightarrow> script_state" where
  "script_key key s =
     (if key = 43 \<or> key = 61 then s
      else if key = 32 then s\<lparr>script_text_buffer := script_text_buffer s @ ['' '']\<rparr>
      else if key = 8
      then (if script_text_buffer s \<noteq> []
            then s\<lparr>script_text_buffer := butlast (script_text_buffer s)\<rparr> else s)
      else if key = 127 then s\<lparr>script_text_buffer := []\<rparr>
      else s)"

definition script_iteration ::
  "classifier \<Rightarrow> mp_results \<Rightarrow> int \<Rightarrow> script_state \<Rightarrow> script_state" where
  "script_iteration m results key s =
     (case build_features results of
        NoHands \<Rightarrow> script_key key s
      | NoLandmarks \<Rightarrow> s
      | DataAux data_aux \<Rightarrow>
          if length data_aux = 84
          then script_key key (script_classified (classify m data_aux) s)
          else script_key key s)"

section \<open>Concrete inputs\<close>

text \<open>
  Two hands of 21 landmarks each and the frames that show the right one, the left one, or
  both (the right hand listed first); a probability vector over the 35 labels that is \<open>p\<close>
  at index \<open>k\<close> and zero elsewhere, and a model that answers every feature vector with that
  distribution.
\<close>

definition right_hand :: hand_landmarks where
  "right_hand = replicate 21 (1/2, 1/4)"

definition left_hand :: hand_landmarks where
  "left_hand = (0, 0) # replicate 20 (1, 2)"

definition one_hand_frame :: mp_results where
  "one_hand_frame =
     \<lparr>multi_hand_landmarks = Some [right_hand], multi_handedness = Some [Some ''Right'']\<rparr>"

definition left_hand_frame :: mp_results where
  "left_hand_frame =
     \<lparr>multi_hand_landmarks = Some [left_hand], multi_handedness = Some [Some ''Left'']\<rparr>"

definition two_hand_frame :: mp_results where
  "two_hand_frame =
     \<lparr>multi_hand_landmarks = Some [right_hand, left_hand],
      multi_handedness = Some [Some ''Right'', Some ''Left'']\<rparr>"

text \<open>The same two hands, the first one without a usable handedness entry.\<close>

definition unlabelled_then_right_frame :: mp_results where
  "unlabelled_then_right_frame =
     \<lparr>multi_hand_landmarks = Some [left_hand, right_hand],
      multi_handedness = Some [None, Some ''Right'']\<rparr>"

definition proba_for :: "nat \<Rightarrow> real \<Rightarrow> real list" where
  "proba_for k p = (replicate 35 0)[k := p]"

definition fixed_model :: "nat \<Rightarrow> real \<Rightarrow> classifier" where
  "fixed_model k p = ProbaModel (\<lambda>data_aux. Some (proba_for k p))"

text \<open>
  A model that tells the two one-hand frames apart by the third feature and answers \<open>H\<close> or
  \<open>I\<close> with probability 0.9, the other two candidates being well separated.
\<close>

definition proba_H :: "real list" where
  "proba_H = (replicate 35 0)[16 := 9/10, 17 := 6/100, 18 := 4/100]"

definition proba_I :: "real list" where
  "proba_I = (replicate 35 0)[17 := 9/10, 16 := 6/100, 18 := 4/100]"

definition two_sign_model :: classifier where
  "two_sign_model =
     ProbaModel (\<lambda>data_aux. Some (if data_aux ! 2 = 0 then proba_H else proba_I))"

text \<open>One function that meets \<^const>\<open>argsort_contract\<close>: a stable sort of the indices.\<close>

definition stable_argsort :: "real list \<Rightarrow> nat list" where
  "stable_argsort v = sort_key (\<lambda>idx. v ! idx) [0..<length v]"

section \<open>Supporting lemmas\<close>

lemmas gate_defs =
  passed_threshold_def class_threshold_def PER_CLASS_THRESHOLDS_def CONFIDENCE_THRESHOLD_def

lemma funpow_unfold:
  "f ^^ 1 = f"
  "f ^^ 4 = f \<circ> f \<circ> f \<circ> f"
  "f ^^ 5 = f \<circ> f \<circ> f \<circ> f \<circ> f"
  "f ^^ 6 = f \<circ> f \<circ> f \<circ> f \<circ> f \<circ> f"
  by (simp_all add: eval_nat_numeral fun_eq_iff)

lemma build_features_one_hand_frame: "build_features one_hand_frame = DataAux (replicate 84 0)"
  by (simp add: one_hand_frame_def right_hand_def build_features_def pair_hands_def
      hand_label_def sort_paired_def per_hand_step_def hand_feats_def hand_feat_len_def Let_def
      enumerate_eq_zip eval_nat_numeral)

lemma classify_fixed_model_A:
  "classify (fixed_model 9 (9/10)) d = (''A'', Some (9/10), Some (proba_for 9 (9/10)))"
  by (simp add: classify_def fixed_model_def proba_for_def np_argmax_def np_max_def
      label_of_def labels_dict_def labels_list_def eval_nat_numeral)

text \<open>A frame whose features reach the classifier is handled by \<^const>\<open>processed_frame\<close>.\<close>

lemma process_frame_classified:
  assumes "model s = Some m" "build_features results = DataAux data_aux" "length data_aux = 84"
  shows "process_frame np_argsort results s =
           ((Some (fst (classify m data_aux)), Confidence (fst (snd (classify m data_aux)))),
            processed_frame np_argsort (classify m data_aux) s)"
  using assms by (simp add: process_frame_def Let_def)

lemma processed_frame_model [simp]: "model (processed_frame np_argsort c s) = model s"
  by (cases c) (simp add: processed_frame_def debounce_update_def Let_def)

lemma script_iteration_A:
  "script_iteration (fixed_model 9 (9/10)) one_hand_frame 255 s =
     script_classified (''A'', Some (9/10), Some (proba_for 9 (9/10))) s"
  by (simp add: script_iteration_def build_features_one_hand_frame classify_fixed_model_A
      script_key_def)

lemma server_frame_A:
  "model s = Some (fixed_model 9 (9/10)) \<Longrightarrow>
   snd (process_frame np_argsort one_hand_frame s) =
     processed_frame np_argsort (''A'', Some (9/10), Some (proba_for 9 (9/10))) s"
  by (simp add: process_frame_classified [OF _ build_features_one_hand_frame]
      classify_fixed_model_A)

lemma process_frame_flags:
  "model (snd (process_frame np_argsort results s)) = model s
   \<and> is_detection_active (snd (process_frame np_argsort results s)) = is_detection_active s
   \<and> threads_started (snd (process_frame np_argsort results s)) = threads_started s"
  by (simp add: process_frame_def processed_frame_def debounce_update_def Let_def
      split: option.splits feature_result.splits prod.splits)

lemma reachable_active_model:
  "reachable np_argsort s \<Longrightarrow> is_detection_active s \<Longrightarrow> model s \<noteq> None"
proof (induction rule: reachable.induct)
  case (after_import m)
  then show ?case by (simp add: initial_state_def)
next
  case (after_start s)
  then show ?case by (auto simp add: start_detection_def split: if_splits)
next
  case (after_stop s)
  then show ?case by (simp add: stop_detection_def)
next
  case (after_clear s)
  then show ?case by (simp add: clear_buffer_def)
next
  case (after_frame s results)
  then show ?case by (simp add: process_frame_flags)
qed

section \<open>Debounce\<close>

text \<open>
  On the server a held gesture is emitted on its first frame and again on the frame on
  which the counter, incremented before the test, has reached the cooldown of 5: once in
  4 or 5 frames, twice in 6.
\<close>

lemma server_debounce_idempotence:
  assumes "L \<noteq> ''Unknown''" "passed_threshold L p" "last_predicted_character s \<noteq> Some L"
  shows "length (emitted ((processed_frame np_argsort (L, p, v) ^^ 1) s)) = length (emitted s) + 1
       \<and> length (emitted ((processed_frame np_argsort (L, p, v) ^^ 4) s)) = length (emitted s) + 1
       \<and> length (emitted ((processed_frame np_argsort (L, p, v) ^^ 5) s)) = length (emitted s) + 1
       \<and> length (emitted ((processed_frame np_argsort (L, p, v) ^^ 6) s)) = length (emitted s) + 2"
  using assms
  by (simp add: funpow_unfold processed_frame_def debounce_update_def should_emit_def Let_def
      repeat_cooldown_frames_def)

text \<open>
  A frame classified as \<open>Unknown\<close>, or below its threshold, only advances the counter.
\<close>

lemma rejected_frame_only_counts:
  assumes "L = ''Unknown'' \<or> \<not> passed_threshold L p"
  shows "processed_frame np_argsort (L, p, v) s =
           s\<lparr>frames_since_last_char := frames_since_last_char s + 1\<rparr>"
  using assms by (auto simp add: processed_frame_def debounce_update_def should_emit_def)

text \<open>
  In the script a held gesture is never emitted again, however long it is held: after the
  first frame neither the buffer nor the last character changes.
\<close>

lemma script_classified_stable:
  assumes "script_last_predicted_character t =
             script_last_predicted_character (script_classified c s)"
  shows "script_text_buffer (script_classified c t) = script_text_buffer t
       \<and> script_last_predicted_character (script_classified c t) =
           script_last_predicted_character t"
  using assms by (cases c) (auto simp add: script_classified_def Let_def split: if_splits)

lemma script_held_gesture_never_repeats:
  "script_text_buffer ((script_classified c ^^ Suc n) s) =
     script_text_buffer (script_classified c s)
   \<and> script_last_predicted_character ((script_classified c ^^ Suc n) s) =
     script_last_predicted_character (script_classified c s)"
proof (induction n)
  case 0
  show ?case by simp
next
  case (Suc n)
  let ?t = "(script_classified c ^^ Suc n) s"
  from Suc have "script_last_predicted_character ?t =
      script_last_predicted_character (script_classified c s)" by simp
  from script_classified_stable [OF this] Suc show ?case by simp
qed

text \<open>
  C1. Debounce idempotence with cooldown 5: the same accepted label fed for 6 consecutive
  frames is to be emitted twice. The server does so; the loop of prediction.py, whose test
  at line 195 never reads \<^verbatim>\<open>frames_since_last_char\<close>, does not. Six consecutive frames of one
  hand classified as \<open>A\<close> with probability 0.9, no key pressed: the script's buffer holds one
  \<open>A\<close>, the server's holds two.
\<close>

theorem held_gesture_script_vs_server:
  "script_text_buffer
     ((script_iteration (fixed_model 9 (9/10)) one_hand_frame 255 ^^ 6) script_initial_state)
     = [''A'']
   \<and> text_buffer
     (((\<lambda>s. snd (process_frame np_argsort one_hand_frame s)) ^^ 6)
        (initial_state (Some (fixed_model 9 (9/10)))))
     = [''A'', ''A'']"
proof
  show "script_text_buffer
     ((script_iteration (fixed_model 9 (9/10)) one_hand_frame 255 ^^ 6) script_initial_state)
     = [''A'']"
    by (simp add: funpow_unfold script_iteration_A script_classified_def
        script_initial_state_def gate_defs ACTION_GESTURES_def dispatch_def Let_def
        repeat_cooldown_frames_def)
  have "model (initial_state (Some (fixed_model 9 (9/10)))) = Some (fixed_model 9 (9/10))"
    by (simp add: initial_state_def)
  then show "text_buffer
     (((\<lambda>s. snd (process_frame np_argsort one_hand_frame s)) ^^ 6)
        (initial_state (Some (fixed_model 9 (9/10)))))
     = [''A'', ''A'']"
    by (simp add: funpow_unfold server_frame_A)
       (simp add: processed_frame_def debounce_update_def should_emit_def initial_state_def
        gate_defs ACTION_GESTURES_def dispatch_def Let_def repeat_cooldown_frames_def)
qed

text \<open>
  C2. Debounce responsiveness: whatever label \<open>A\<close> is held and however long (the counter of
  \<open>s\<close> is arbitrary), an accepted classification of a different label \<open>B\<close> on the next
  processed frame emits \<open>B\<close> at once: \<open>B\<close> becomes the last character, the counter is reset
  to 0, the buffer is edited for \<open>B\<close> and one event for \<open>B\<close> is sent.
\<close>

theorem debounce_responsiveness:
  assumes "last_predicted_character s = Some A" "B \<noteq> A" "B \<noteq> ''Unknown''"
    "passed_threshold B p"
  shows "last_predicted_character (processed_frame np_argsort (B, p, v) s) = Some B
       \<and> frames_since_last_char (processed_frame np_argsort (B, p, v) s) = 0
       \<and> text_buffer (processed_frame np_argsort (B, p, v) s) = dispatch (ACTION_GESTURES B) B (text_buffer s)
       \<and> map character (emitted (processed_frame np_argsort (B, p, v) s)) = map character (emitted s) @ [B]"
  using assms
  by (simp add: processed_frame_def debounce_update_def should_emit_def Let_def)

theorem debounce_responsiveness_witness:
  "last_predicted_character
     (processed_frame stable_argsort (''C'', Some (1/2), None)
        ((initial_state None)\<lparr>last_predicted_character := Some ''A'',
                               frames_since_last_char := 2\<rparr>))
     = Some ''C''"
  using debounce_responsiveness
    [where s = "(initial_state None)\<lparr>last_predicted_character := Some ''A'',
                               frames_since_last_char := 2\<rparr>"
       and A = "''A''" and B = "''C''" and p = "Some (1/2)" and v = None
       and np_argsort = stable_argsort]
  by (simp add: gate_defs)

section \<open>Confidence gate\<close>

text \<open>
  C3. A classification that carries a probability \<open>p\<close> passes the gate exactly when \<open>p\<close> is
  at least the threshold of its label: the entry of the per-class table when the label has
  one, 0.65 otherwise. A probability equal to the threshold passes, one below it does not.
\<close>

theorem confidence_gate:
  "(passed_threshold L (Some p) \<longleftrightarrow>
      p \<ge> (case PER_CLASS_THRESHOLDS L of Some t \<Rightarrow> t | None \<Rightarrow> 0.65))
   \<and> passed_threshold L (Some (class_threshold L))
   \<and> (p < class_threshold L \<longrightarrow> \<not> passed_threshold L (Some p))
   \<and> (L \<notin> dom PER_CLASS_THRESHOLDS \<longrightarrow> class_threshold L = 0.65)
   \<and> dom PER_CLASS_THRESHOLDS = {''C'', ''D'', ''U'', ''N'', ''2'', ''1'', ''I''}
   \<and> class_threshold ''C'' = 0.22 \<and> class_threshold ''D'' = 0.45
   \<and> class_threshold ''U'' = 0.40 \<and> class_threshold ''N'' = 0.20
   \<and> class_threshold ''2'' = 0.50 \<and> class_threshold ''1'' = 0.50
   \<and> class_threshold ''I'' = 0.30"
  by (auto simp add: gate_defs split: option.splits)

theorem confidence_gate_witness:
  "passed_threshold ''A'' (Some 0.65) \<and> \<not> passed_threshold ''A'' (Some 0.64)
   \<and> passed_threshold ''C'' (Some 0.22) \<and> \<not> passed_threshold ''C'' (Some 0.21)"
  using confidence_gate [of "''A''" "0.64"] confidence_gate [of "''A''" "0.65"]
    confidence_gate [of "''C''" "0.21"] confidence_gate [of "''C''" "0.22"]
  by (simp add: PER_CLASS_THRESHOLDS_def)

section \<open>Hard classifiers\<close>

text \<open>
  C7. A model without \<^verbatim>\<open>predict_proba\<close> yields, for every feature vector, a label and no
  confidence, and that classification passes the gate whatever the label; whether it is
  emitted then depends on the label and the debounce test alone.
\<close>

theorem hard_classifier_passes_gate:
  "fst (snd (classify (HardModel predict) data_aux)) = None
   \<and> passed_threshold (fst (classify (HardModel predict) data_aux))
        (fst (snd (classify (HardModel predict) data_aux)))
   \<and> (predict data_aux = Some k \<longrightarrow>
        classify (HardModel predict) data_aux = (label_of k, None, None))
   \<and> (model s = Some (HardModel predict) \<and> build_features results = DataAux data_aux
        \<and> length data_aux = 84 \<and> predict data_aux = Some k \<longrightarrow>
        fst (process_frame np_argsort results s) = (Some (label_of k), Confidence None)
        \<and> (should_emit (label_of k) None (s\<lparr>frames_since_last_char := frames_since_last_char s + 1\<rparr>) \<longleftrightarrow>
             label_of k \<noteq> ''Unknown'' \<and>
             (Some (label_of k) \<noteq> last_predicted_character s \<or>
              frames_since_last_char s + 1 \<ge> repeat_cooldown_frames)))"
  by (auto simp add: classify_def passed_threshold_def process_frame_def Let_def should_emit_def
      split: option.splits)

theorem hard_classifier_passes_gate_witness:
  "fst (process_frame stable_argsort one_hand_frame (initial_state (Some (HardModel (\<lambda>d. Some 16)))))
     = (Some ''H'', Confidence None)
   \<and> text_buffer (snd (process_frame stable_argsort one_hand_frame (initial_state (Some (HardModel (\<lambda>d. Some 16))))))
     = [''H'']"
  using hard_classifier_passes_gate [where predict = "\<lambda>d. Some 16"
      and data_aux = "replicate 84 0" and k = 16
      and s = "initial_state (Some (HardModel (\<lambda>d. Some 16)))" and results = one_hand_frame
      and np_argsort = stable_argsort]
  by (simp add: build_features_one_hand_frame initial_state_def label_of_def labels_dict_def
      labels_list_def process_frame_def classify_def processed_frame_def debounce_update_def
      should_emit_def passed_threshold_def dispatch_def ACTION_GESTURES_def Let_def)

section \<open>Action dispatcher\<close>

text \<open>
  C5. When a label is emitted the buffer is edited by the label's action: SPACE appends one
  space, BACKSPACE drops the last entry and leaves an empty buffer empty, DELETE empties the
  buffer, and a label without an action is appended as it is. The buffer \<open>AB\<close> becomes \<open>A\<close>
  under BACKSPACE.
\<close>

theorem action_dispatcher:
  assumes "should_emit L p s"
  shows "(ACTION_GESTURES L = Some ''SPACE'' \<longrightarrow>
            text_buffer (debounce_update np_argsort L p v s) = text_buffer s @ ['' ''])
       \<and> (ACTION_GESTURES L = Some ''BACKSPACE'' \<longrightarrow>
            text_buffer (debounce_update np_argsort L p v s) =
              (if text_buffer s = [] then [] else butlast (text_buffer s)))
       \<and> (ACTION_GESTURES L = Some ''DELETE'' \<longrightarrow> text_buffer (debounce_update np_argsort L p v s) = [])
       \<and> (ACTION_GESTURES L = None \<longrightarrow>
            text_buffer (debounce_update np_argsort L p v s) = text_buffer s @ [L])
       \<and> dispatch (Some ''SPACE'') L buf = buf @ ['' '']
       \<and> dispatch (Some ''BACKSPACE'') L [] = []
       \<and> dispatch (Some ''BACKSPACE'') L (buf @ [x]) = buf
       \<and> join (dispatch (Some ''BACKSPACE'') L [''A'', ''B'']) = ''A''
       \<and> dispatch (Some ''DELETE'') L buf = []
       \<and> dispatch None L buf = buf @ [L]"
  using assms by (simp add: debounce_update_def dispatch_def join_def Let_def)

theorem action_dispatcher_witness:
  "text_buffer (debounce_update stable_argsort ''B'' None None ((initial_state None)\<lparr>text_buffer := [''A'', ''C'']\<rparr>)) = [''A'']
   \<and> text_buffer (debounce_update stable_argsort ''SPACE'' None None ((initial_state None)\<lparr>text_buffer := [''A'', ''C'']\<rparr>)) = [''A'', ''C'', '' '']
   \<and> text_buffer (debounce_update stable_argsort ''D'' None None ((initial_state None)\<lparr>text_buffer := [''A'', ''C'']\<rparr>)) = []
   \<and> text_buffer (debounce_update stable_argsort ''H'' None None ((initial_state None)\<lparr>text_buffer := [''A'', ''C'']\<rparr>)) = [''A'', ''C'', ''H'']"
  using action_dispatcher [where L = "''B''" and p = None and v = None and np_argsort = stable_argsort
      and s = "(initial_state None)\<lparr>text_buffer := [''A'', ''C'']\<rparr>"]
    action_dispatcher [where L = "''SPACE''" and p = None and v = None and np_argsort = stable_argsort
      and s = "(initial_state None)\<lparr>text_buffer := [''A'', ''C'']\<rparr>"]
    action_dispatcher [where L = "''D''" and p = None and v = None and np_argsort = stable_argsort
      and s = "(initial_state None)\<lparr>text_buffer := [''A'', ''C'']\<rparr>"]
    action_dispatcher [where L = "''H''" and p = None and v = None and np_argsort = stable_argsort
      and s = "(initial_state None)\<lparr>text_buffer := [''A'', ''C'']\<rparr>"]
  by (simp add: should_emit_def passed_threshold_def initial_state_def ACTION_GESTURES_def)

section \<open>Starting detection\<close>

text \<open>
  C6. A call of \<^verbatim>\<open>start_detection\<close> while detection is active is answered with
  \<^verbatim>\<open>success = False\<close>, \<^verbatim>\<open>Detection already active\<close>, and a call in a reachable state whose
  model failed to load with \<^verbatim>\<open>success = False\<close>, \<^verbatim>\<open>Model not loaded\<close>. A rejected call leaves
  every global as it was: the buffer is unchanged and no thread is started (the camera is
  opened by the worker thread only). Two calls in a row start one thread.
\<close>

theorem start_detection_rejections:
  "(is_detection_active s \<longrightarrow>
      start_detection s = (\<lparr>success = False, message = ''Detection already active''\<rparr>, s))
   \<and> (reachable np_argsort s \<and> model s = None \<longrightarrow>
      start_detection s = (\<lparr>success = False, message = ''Model not loaded''\<rparr>, s))
   \<and> (\<not> success (fst (start_detection s)) \<longrightarrow>
        text_buffer (snd (start_detection s)) = text_buffer s
      \<and> threads_started (snd (start_detection s)) = threads_started s
      \<and> snd (start_detection s) = s)
   \<and> (\<not> is_detection_active s \<and> model s \<noteq> None \<longrightarrow>
        threads_started (snd (start_detection s)) = threads_started s + 1
      \<and> start_detection (snd (start_detection s)) =
          (\<lparr>success = False, message = ''Detection already active''\<rparr>, snd (start_detection s))
      \<and> threads_started (snd (start_detection (snd (start_detection s)))) = threads_started s + 1)"
  using reachable_active_model [where s = s and np_argsort = np_argsort]
  by (auto simp add: start_detection_def)

theorem start_detection_rejections_witness:
  "start_detection (initial_state None) =
     (\<lparr>success = False, message = ''Model not loaded''\<rparr>, initial_state None)
   \<and> start_detection (snd (start_detection (initial_state (Some (fixed_model 9 (9/10)))))) =
     (\<lparr>success = False, message = ''Detection already active''\<rparr>,
      snd (start_detection (initial_state (Some (fixed_model 9 (9/10))))))
   \<and> threads_started (snd (start_detection (snd (start_detection (initial_state (Some (fixed_model 9 (9/10)))))))) = 1"
  using start_detection_rejections
      [where s = "initial_state None" and np_argsort = stable_argsort]
    start_detection_rejections
      [where s = "initial_state (Some (fixed_model 9 (9/10)))" and np_argsort = stable_argsort]
    reachable.after_import [where m = None and np_argsort = stable_argsort]
  by (simp add: initial_state_def)

text \<open>
  C9. Every successful call of \<^verbatim>\<open>start_detection\<close> empties the text buffer, whatever it held,
  and starts one worker thread; the call succeeds exactly when detection is not active and
  the model is loaded.
\<close>

theorem start_detection_resets_buffer:
  "(success (fst (start_detection s)) \<longrightarrow>
        text_buffer (snd (start_detection s)) = []
      \<and> get_text_buffer (snd (start_detection s)) = []
      \<and> threads_started (snd (start_detection s)) = Suc (threads_started s)
      \<and> is_detection_active (snd (start_detection s)))
   \<and> (success (fst (start_detection s)) \<longleftrightarrow> \<not> is_detection_active s \<and> model s \<noteq> None)"
  by (simp add: start_detection_def get_text_buffer_def join_def)

theorem start_detection_resets_buffer_witness:
  "get_text_buffer (snd (start_detection
      ((initial_state (Some (fixed_model 9 (9/10))))\<lparr>text_buffer := [''H'', ''I'']\<rparr>))) = []
   \<and> get_text_buffer ((initial_state (Some (fixed_model 9 (9/10))))\<lparr>text_buffer := [''H'', ''I'']\<rparr>) = ''HI''"
  using start_detection_resets_buffer
    [of "(initial_state (Some (fixed_model 9 (9/10))))\<lparr>text_buffer := [''H'', ''I'']\<rparr>"]
  by (simp add: initial_state_def start_detection_def get_text_buffer_def join_def)

section \<open>Feature builder\<close>

lemma map_snd_pair_hands: "map snd (pair_hands hl hs) = hs"
proof -
  have "map snd (map (\<lambda>(idx, hand). (hand_label hl idx, hand)) ps) = map snd ps"
    for ps :: "(nat \<times> hand_landmarks) list"
    by (induction ps) auto
  then have "map snd (pair_hands hl hs) = map snd (enumerate 0 hs)"
    unfolding pair_hands_def .
  then show ?thesis by simp
qed

lemma pairs_length: "length (concat (map (\<lambda>lm. [f lm, g lm]) lms)) = 2 * length lms"
  by (induction lms) simp_all

lemma pairs_nth:
  "i < length lms \<Longrightarrow>
     concat (map (\<lambda>lm. [f lm, g lm]) lms) ! (2 * i) = f (lms ! i)
   \<and> concat (map (\<lambda>lm. [f lm, g lm]) lms) ! (2 * i + 1) = g (lms ! i)"
proof (induction lms arbitrary: i)
  case Nil
  then show ?case by simp
next
  case (Cons lm lms)
  then show ?case by (cases i) simp_all
qed

lemma length_hand_feats: "length (hand_feats h) = 2 * length h"
  by (simp add: hand_feats_def Let_def pairs_length)

lemma hand_feats_nth:
  assumes "i < length h"
  shows "hand_feats h ! (2 * i) = fst (h ! i) - Min (fst ` set h)
       \<and> hand_feats h ! (2 * i + 1) = snd (h ! i) - Min (snd ` set h)"
proof -
  from assms have "h \<noteq> []" by auto
  then have "min_list (map fst h) = Min (fst ` set h)" "min_list (map snd h) = Min (snd ` set h)"
    by (simp_all add: min_list_Min)
  then show ?thesis
    using pairs_nth [OF assms] by (simp add: hand_feats_def Let_def)
qed

lemma pad_two_hands_one: "pad_two_hands [a] = [a, replicate 42 0]"
  by (subst pad_two_hands.simps, subst pad_two_hands.simps) (simp add: hand_feat_len_def)

lemma pad_two_hands_two: "pad_two_hands [a, b] = [a, b]"
  by (subst pad_two_hands.simps) simp

lemma sorted_pairs_hands:
  "map snd (sort_paired (pair_hands hl hs)) \<in> {ys. set ys = set hs}"
proof -
  have "set (map snd (sort_paired (pair_hands hl hs))) = set (map snd (pair_hands hl hs))"
    by (simp add: sort_paired_def)
  then show ?thesis by (simp add: map_snd_pair_hands)
qed


lemma sorted_pairs_landmarks:
  assumes "\<forall>h\<in>set hs. length h = 21" "item \<in> set (sort_paired (pair_hands hl hs))"
  shows "length (snd item) = 21"
proof -
  from assms(2) have "snd item \<in> set (map snd (sort_paired (pair_hands hl hs)))"
    by simp
  then have "snd item \<in> set hs"
    using sorted_pairs_hands [of hl hs] by simp
  with assms(1) show ?thesis by simp
qed

lemma per_hand_step_nonempty:
  "snd item \<noteq> [] \<Longrightarrow>
   per_hand_step (xa, ya, phf) item =
     (xa @ map fst (snd item), ya @ map snd (snd item), phf @ [hand_feats (snd item)])"
  by (simp add: per_hand_step_def Let_def)

lemma build_features_hands:
  assumes "multi_hand_landmarks results = Some hs" "hs \<noteq> []" "\<forall>h\<in>set hs. length h = 21"
  shows "build_features results =
     DataAux (let p = take 2 (sort_paired (pair_hands (multi_handedness results) hs))
              in hand_feats (snd (p ! 0)) @
                 (if length hs = 1 then replicate 42 0 else hand_feats (snd (p ! 1))))"
proof -
  let ?q = "sort_paired (pair_hands (multi_handedness results) hs)"
  have len: "length ?q = length hs"
    by (simp add: sort_paired_def pair_hands_def)
  have lm: "length (snd item) = 21" if "item \<in> set ?q" for item
    using sorted_pairs_landmarks [OF assms(3) that] .
  from assms(2) len obtain a rest where q: "?q = a # rest"
    by (cases ?q) auto
  have a: "snd a \<noteq> []" using lm [of a] q by auto
  show ?thesis
  proof (cases rest)
    case Nil
    then have one: "length hs = 1" using len q by simp
    show ?thesis
      using assms(1,2) a one
      by (simp add: build_features_def q Nil per_hand_step_nonempty hand_feat_len_def Let_def)
  next
    case (Cons b rest')
    then have two: "length hs \<noteq> 1" using len q by auto
    have b: "snd b \<noteq> []" using lm [of b] q Cons by auto
    show ?thesis
      using assms(1,2) a b two
      by (simp add: build_features_def q Cons per_hand_step_nonempty pad_two_hands_two Let_def)
  qed
qed

lemma pair_hands_nth:
  assumes "i < length hs"
  shows "pair_hands hl hs ! i = (hand_label hl i, hs ! i)"
  using assms by (simp add: pair_hands_def nth_enumerate_eq)

lemma sort_key_item_table:
  "sort_key_item (Some ''Left'', h) = 0 \<and> sort_key_item (Some ''Right'', h) = 1
   \<and> (l \<noteq> Some ''Left'' \<and> l \<noteq> Some ''Right'' \<longrightarrow> sort_key_item (l, h) = 2)"
  by (simp add: sort_key_item_def)

text \<open>In the sorted list no hand comes before a Left hand but a Left hand, and none before a
  Right hand but a Left or a Right hand.\<close>

lemma sort_paired_order:
  assumes "i < j" "j < length (sort_paired paired)"
  shows "(fst (sort_paired paired ! j) = Some ''Left'' \<longrightarrow>
            fst (sort_paired paired ! i) = Some ''Left'')
       \<and> (fst (sort_paired paired ! j) = Some ''Right'' \<longrightarrow>
            fst (sort_paired paired ! i) = Some ''Left'' \<or>
            fst (sort_paired paired ! i) = Some ''Right'')"
proof -
  have "sorted (map sort_key_item (sort_paired paired))"
    by (simp add: sort_paired_def)
  from sorted_nth_mono [OF this, of i j] assms
  have "sort_key_item (sort_paired paired ! i) \<le> sort_key_item (sort_paired paired ! j)"
    by simp
  then show ?thesis
    by (simp add: sort_key_item_def split: if_splits)
qed

lemma sort_paired_stable:
  "filter (\<lambda>item. sort_key_item item = k) (sort_paired paired) =
     filter (\<lambda>item. sort_key_item item = k) paired"
  by (simp add: sort_paired_def sort_key_stable)

lemma sort_paired_two:
  "sort_paired [a, b] = (if sort_key_item b < sort_key_item a then [b, a] else [a, b])"
  by (simp add: sort_paired_def)

text \<open>
  C4. Let \<open>hs\<close> be the hands observed in a frame, each with its 21 landmarks. The builder
  gives no feature vector exactly when \<open>hs\<close> is empty, and then \<^verbatim>\<open>process_frame\<close> returns
  \<^verbatim>\<open>(None, None)\<close> with the state untouched, whatever the classifier. Otherwise it gives 84
  features: the block of the first hand in sorted order, then the block of the second or 42
  zeros; the classifier is called on exactly this vector. Hand \<open>i\<close> is paired with its
  handedness label and the pairs are sorted by the key Left = 0, Right = 1, anything else
  = 2: in the sorted list only a Left hand precedes a Left hand and only a Left or a Right
  hand precedes a Right hand, hands with the same key keep the order in which they were
  detected, and of two hands the second is moved to the front exactly when its key is
  smaller. Entry \<open>2i\<close>, \<open>2i+1\<close> of a block is \<open>(x - min_x, y - min_y)\<close> of landmark \<open>i\<close>.
\<close>

theorem feature_builder_contract:
  assumes "hs = (case multi_hand_landmarks results of None \<Rightarrow> [] | Some hands \<Rightarrow> hands)"
    and "\<forall>h\<in>set hs. length h = 21"
  shows "(build_features results = NoHands \<longleftrightarrow> hs = [])
   \<and> (hs = [] \<and> model s \<noteq> None \<longrightarrow> process_frame np_argsort results s = ((None, Confidence None), s))
   \<and> (hs \<noteq> [] \<longrightarrow>
        (\<exists>v. build_features results = DataAux v \<and> length v = 84
           \<and> v = (let p = take 2 (sort_paired (pair_hands (multi_handedness results) hs))
                  in hand_feats (snd (p ! 0)) @
                     (if length hs = 1 then replicate 42 0 else hand_feats (snd (p ! 1))))
           \<and> (\<forall>m. model s = Some m \<longrightarrow>
                  snd (process_frame np_argsort results s) = processed_frame np_argsort (classify m v) s)))
   \<and> sorted (map sort_key_item (sort_paired (pair_hands (multi_handedness results) hs)))
   \<and> map snd (pair_hands (multi_handedness results) hs) = hs
   \<and> set (sort_paired (pair_hands (multi_handedness results) hs)) =
       set (pair_hands (multi_handedness results) hs)
   \<and> (\<forall>h i. i < length h \<longrightarrow>
         hand_feats h ! (2 * i) = fst (h ! i) - Min (fst ` set h)
       \<and> hand_feats h ! (2 * i + 1) = snd (h ! i) - Min (snd ` set h))
   \<and> (\<forall>i<length hs. pair_hands (multi_handedness results) hs ! i =
         (hand_label (multi_handedness results) i, hs ! i))
   \<and> (\<forall>h l. sort_key_item (Some ''Left'', h) = 0 \<and> sort_key_item (Some ''Right'', h) = 1
         \<and> (l \<noteq> Some ''Left'' \<and> l \<noteq> Some ''Right'' \<longrightarrow> sort_key_item (l, h) = 2))
   \<and> (\<forall>i j. i < j \<and> j < length hs \<longrightarrow>
         (fst (sort_paired (pair_hands (multi_handedness results) hs) ! j) = Some ''Left'' \<longrightarrow>
          fst (sort_paired (pair_hands (multi_handedness results) hs) ! i) = Some ''Left'')
       \<and> (fst (sort_paired (pair_hands (multi_handedness results) hs) ! j) = Some ''Right'' \<longrightarrow>
          fst (sort_paired (pair_hands (multi_handedness results) hs) ! i) = Some ''Left'' \<or>
          fst (sort_paired (pair_hands (multi_handedness results) hs) ! i) = Some ''Right''))
   \<and> (\<forall>k. filter (\<lambda>item. sort_key_item item = k)
              (sort_paired (pair_hands (multi_handedness results) hs)) =
            filter (\<lambda>item. sort_key_item item = k) (pair_hands (multi_handedness results) hs))
   \<and> (\<forall>h1 h2. hs = [h1, h2] \<longrightarrow>
         sort_paired (pair_hands (multi_handedness results) hs) =
           (if sort_key_item (hand_label (multi_handedness results) 1, h2) <
               sort_key_item (hand_label (multi_handedness results) 0, h1)
            then [(hand_label (multi_handedness results) 1, h2),
                  (hand_label (multi_handedness results) 0, h1)]
            else [(hand_label (multi_handedness results) 0, h1),
                  (hand_label (multi_handedness results) 1, h2)]))"
proof (intro conjI)
  let ?q = "sort_paired (pair_hands (multi_handedness results) hs)"
  let ?v = "let p = take 2 ?q
            in hand_feats (snd (p ! 0)) @
               (if length hs = 1 then replicate 42 0 else hand_feats (snd (p ! 1)))"
  have feats: "build_features results = DataAux ?v" if "hs \<noteq> []"
  proof -
    from that assms(1) have "multi_hand_landmarks results = Some hs"
      by (cases "multi_hand_landmarks results") simp_all
    from build_features_hands [OF this that assms(2)] show ?thesis .
  qed
  show "build_features results = NoHands \<longleftrightarrow> hs = []"
  proof
    assume "build_features results = NoHands"
    then show "hs = []" using feats by (cases "hs = []") simp_all
  next
    assume "hs = []"
    then show "build_features results = NoHands"
      using assms(1) by (simp add: build_features_def split: option.splits)
  qed
  then show "hs = [] \<and> model s \<noteq> None \<longrightarrow> process_frame np_argsort results s = ((None, Confidence None), s)"
    by (auto simp add: process_frame_def)
  show "hs \<noteq> [] \<longrightarrow>
        (\<exists>v. build_features results = DataAux v \<and> length v = 84
           \<and> v = ?v
           \<and> (\<forall>m. model s = Some m \<longrightarrow>
                  snd (process_frame np_argsort results s) = processed_frame np_argsort (classify m v) s))"
  proof
    assume ne: "hs \<noteq> []"
    have len: "length ?q = length hs"
      by (simp add: sort_paired_def pair_hands_def)
    have lm: "length (snd (?q ! i)) = 21" if "i < length hs" for i
      using sorted_pairs_landmarks [OF assms(2), of "?q ! i" "multi_handedness results"] that len
      by simp
    have l84: "length ?v = 84"
    proof (cases "length hs = 1")
      case True
      then show ?thesis using lm [of 0] by (simp add: Let_def length_hand_feats)
    next
      case False
      with ne have "1 < length hs" by (cases hs) auto
      then show ?thesis using ne lm [of 0] lm [of 1] by (simp add: Let_def length_hand_feats)
    qed
    have "\<forall>m. model s = Some m \<longrightarrow>
            snd (process_frame np_argsort results s) = processed_frame np_argsort (classify m ?v) s"
      using process_frame_classified [OF _ feats [OF ne] l84, of s] by simp
    with feats [OF ne] l84 show "\<exists>v. build_features results = DataAux v \<and> length v = 84
           \<and> v = ?v
           \<and> (\<forall>m. model s = Some m \<longrightarrow>
                  snd (process_frame np_argsort results s) = processed_frame np_argsort (classify m v) s)"
      by blast
  qed
  show "sorted (map sort_key_item ?q)"
    by (simp add: sort_paired_def)
  show "map snd (pair_hands (multi_handedness results) hs) = hs"
    by (rule map_snd_pair_hands)
  show "set ?q = set (pair_hands (multi_handedness results) hs)"
    by (simp add: sort_paired_def)
  show "\<forall>h i. i < length h \<longrightarrow>
         hand_feats h ! (2 * i) = fst (h ! i) - Min (fst ` set h)
       \<and> hand_feats h ! (2 * i + 1) = snd (h ! i) - Min (snd ` set h)"
    using hand_feats_nth by blast
  show "\<forall>i<length hs. pair_hands (multi_handedness results) hs ! i =
         (hand_label (multi_handedness results) i, hs ! i)"
    by (simp add: pair_hands_nth)
  show "\<forall>h l. sort_key_item (Some ''Left'', h) = 0 \<and> sort_key_item (Some ''Right'', h) = 1
         \<and> (l \<noteq> Some ''Left'' \<and> l \<noteq> Some ''Right'' \<longrightarrow> sort_key_item (l, h) = 2)"
    by (simp add: sort_key_item_def)
  have len: "length ?q = length hs"
    by (simp add: sort_paired_def pair_hands_def)
  show "\<forall>i j. i < j \<and> j < length hs \<longrightarrow>
         (fst (?q ! j) = Some ''Left'' \<longrightarrow> fst (?q ! i) = Some ''Left'')
       \<and> (fst (?q ! j) = Some ''Right'' \<longrightarrow>
          fst (?q ! i) = Some ''Left'' \<or> fst (?q ! i) = Some ''Right'')"
  proof (intro allI impI)
    fix i j
    assume "i < j \<and> j < length hs"
    then have "i < j" "j < length ?q" using len by simp_all
    then show "(fst (?q ! j) = Some ''Left'' \<longrightarrow> fst (?q ! i) = Some ''Left'')
       \<and> (fst (?q ! j) = Some ''Right'' \<longrightarrow>
          fst (?q ! i) = Some ''Left'' \<or> fst (?q ! i) = Some ''Right'')"
      by (rule sort_paired_order)
  qed
  show "\<forall>k. filter (\<lambda>item. sort_key_item item = k) ?q =
            filter (\<lambda>item. sort_key_item item = k) (pair_hands (multi_handedness results) hs)"
    by (simp add: sort_paired_stable)
  show "\<forall>h1 h2. hs = [h1, h2] \<longrightarrow>
         ?q =
           (if sort_key_item (hand_label (multi_handedness results) 1, h2) <
               sort_key_item (hand_label (multi_handedness results) 0, h1)
            then [(hand_label (multi_handedness results) 1, h2),
                  (hand_label (multi_handedness results) 0, h1)]
            else [(hand_label (multi_handedness results) 0, h1),
                  (hand_label (multi_handedness results) 1, h2)])"
    by (simp add: pair_hands_def sort_paired_two upt_rec enumerate_eq_zip)
qed

lemma sort_two_hand_frame:
  "sort_paired (pair_hands (Some [Some ''Right'', Some ''Left'']) [right_hand, left_hand]) =
     [(Some ''Left'', left_hand), (Some ''Right'', right_hand)]"
  by (simp add: sort_paired_def pair_hands_def hand_label_def
      sort_key_item_def enumerate_eq_zip upt_rec)

theorem feature_builder_contract_witness:
  "build_features two_hand_frame = DataAux (hand_feats left_hand @ hand_feats right_hand)
   \<and> length (hand_feats left_hand @ hand_feats right_hand) = 84
   \<and> build_features unlabelled_then_right_frame =
       DataAux (hand_feats right_hand @ hand_feats left_hand)
   \<and> build_features one_hand_frame = DataAux (hand_feats right_hand @ replicate 42 0)
   \<and> build_features \<lparr>multi_hand_landmarks = Some [], multi_handedness = None\<rparr> = NoHands"
proof -
  have two: "\<forall>h\<in>set [right_hand, left_hand]. length h = 21"
    and two': "\<forall>h\<in>set [left_hand, right_hand]. length h = 21"
    and one: "\<forall>h\<in>set [right_hand]. length h = 21"
    and none: "\<forall>h\<in>set ([] :: hand_landmarks list). length h = 21"
    by (simp_all add: right_hand_def left_hand_def)
  from feature_builder_contract [OF _ two, of two_hand_frame]
  have "build_features two_hand_frame = DataAux (hand_feats left_hand @ hand_feats right_hand)
   \<and> length (hand_feats left_hand @ hand_feats right_hand) = 84"
    by (simp add: two_hand_frame_def sort_two_hand_frame)
  moreover from feature_builder_contract [OF _ two', of unlabelled_then_right_frame]
  have "build_features unlabelled_then_right_frame =
          DataAux (hand_feats right_hand @ hand_feats left_hand)"
    by (simp add: unlabelled_then_right_frame_def hand_label_def sort_key_item_def)
  moreover from feature_builder_contract [OF _ one, of one_hand_frame]
  have "build_features one_hand_frame = DataAux (hand_feats right_hand @ replicate 42 0)"
    by (simp add: one_hand_frame_def sort_paired_def pair_hands_def)
  moreover from feature_builder_contract [OF _ none, of "\<lparr>multi_hand_landmarks = Some [], multi_handedness = None\<rparr>"]
  have "build_features \<lparr>multi_hand_landmarks = Some [], multi_handedness = None\<rparr> = NoHands"
    by simp
  ultimately show ?thesis by simp
qed

section \<open>Emission notification\<close>

lemma map_insort_key: "map f (insort_key f x xs) = insort (f x) (map f xs)"
  by (induction xs) simp_all

lemma map_sort_key: "map f (sort_key f xs) = sort (map f xs)"
  by (induction xs) (simp_all add: map_insort_key)

text \<open>What follows from NumPy's contract alone, whatever the order it gives to ties.\<close>

lemma stable_argsort_contract: "argsort_contract stable_argsort"
  by (simp add: argsort_contract_def stable_argsort_def)

lemma argsort_length:
  assumes "argsort_contract np_argsort"
  shows "length (np_argsort v) = length v"
proof -
  from assms have "distinct (np_argsort v)" "set (np_argsort v) = {0..<length v}"
    by (simp_all add: argsort_contract_def)
  then have "length (np_argsort v) = card {0..<length v}"
    by (metis distinct_card)
  then show ?thesis by simp
qed

lemma argsort_values:
  assumes "argsort_contract np_argsort"
  shows "map (\<lambda>idx. v ! idx) (np_argsort v) = sort v"
proof -
  from assms have d: "distinct (np_argsort v)" and s: "set (np_argsort v) = set [0..<length v]"
    and o: "sorted (map (\<lambda>idx. v ! idx) (np_argsort v))"
    by (simp_all add: argsort_contract_def)
  from d s have "mset (np_argsort v) = mset [0..<length v]"
    by (metis distinct_upt set_eq_iff_mset_eq_distinct)
  then have "mset (map (\<lambda>idx. v ! idx) (np_argsort v)) = mset (map (\<lambda>idx. v ! idx) [0..<length v])"
    by (simp only: mset_map)
  then have "mset (map (\<lambda>idx. v ! idx) (np_argsort v)) = mset v"
    by (simp only: map_nth)
  from properties_for_sort [OF this o] show ?thesis by simp
qed

lemma length_top3_indices:
  assumes "argsort_contract np_argsort"
  shows "length (top3_indices np_argsort v) = min 3 (length v)"
  using argsort_length [OF assms, of v] by (auto simp add: top3_indices_def Let_def)

lemma top3_indices_values:
  assumes "argsort_contract np_argsort"
  shows "map (\<lambda>idx. v ! idx) (top3_indices np_argsort v) = take 3 (rev (sort v))"
proof -
  have "map (\<lambda>idx. v ! idx) (top3_indices np_argsort v) =
          rev (drop (length v - 3) (map (\<lambda>idx. v ! idx) (np_argsort v)))"
    by (simp add: top3_indices_def Let_def argsort_length [OF assms] rev_map drop_map)
  also have "\<dots> = rev (drop (length v - 3) (sort v))"
    by (simp only: argsort_values [OF assms])
  also have "\<dots> = take 3 (rev (sort v))"
    by (cases "3 \<le> length v") (simp_all add: rev_drop)
  finally show ?thesis .
qed

lemma top3_of_indices:
  "top3_of np_argsort (Some v) =
     map (\<lambda>idx. (case labels_dict (int idx) of Some c \<Rightarrow> c | None \<Rightarrow> ''?'' @ str_nat idx,
                  v ! idx))
       (top3_indices np_argsort v)"
  by (simp add: top3_of_def Let_def zip_map_map zip_same_conv_map)

lemma top3_of_probs:
  assumes "argsort_contract np_argsort"
  shows "map snd (top3_of np_argsort (Some v)) = take 3 (rev (sort v))"
  using top3_indices_values [OF assms, of v] by (simp add: top3_of_indices comp_def)

lemma top3_indices_set:
  assumes "argsort_contract np_argsort"
  shows "set (top3_indices np_argsort v) \<subseteq> {0..<length v}"
proof -
  have "set (top3_indices np_argsort v) \<subseteq> set (np_argsort v)"
    by (auto simp add: top3_indices_def Let_def dest: in_set_dropD)
  then show ?thesis using assms by (simp add: argsort_contract_def)
qed

lemma top3_indices_distinct:
  assumes "argsort_contract np_argsort"
  shows "distinct (top3_indices np_argsort v)"
  using assms by (simp add: top3_indices_def Let_def argsort_contract_def)

text \<open>Every index left out of the candidates has a probability no larger than any candidate's.\<close>

lemma top3_indices_dominate:
  assumes "argsort_contract np_argsort" "i < length v" "i \<notin> set (top3_indices np_argsort v)"
    "j \<in> set (top3_indices np_argsort v)"
  shows "v ! i \<le> v ! j"
proof -
  let ?a = "np_argsort v"
  let ?k = "length ?a - 3"
  from assms(1) have s: "set ?a = {0..<length v}"
    and o: "sorted (map (\<lambda>idx. v ! idx) ?a)"
    by (simp_all add: argsort_contract_def)
  have split: "?a = take ?k ?a @ drop ?k ?a" by simp
  from assms(3,4) have i: "i \<notin> set (drop ?k ?a)" and j: "j \<in> set (drop ?k ?a)"
    by (simp_all add: top3_indices_def Let_def)
  from assms(2) s have "i \<in> set ?a" by simp
  then have "i \<in> set (take ?k ?a) \<union> set (drop ?k ?a)"
    by (metis set_append split)
  with i have i': "i \<in> set (take ?k ?a)" by simp
  from o have "sorted (map (\<lambda>idx. v ! idx) (take ?k ?a) @ map (\<lambda>idx. v ! idx) (drop ?k ?a))"
    by (metis map_append split)
  then have "\<forall>x\<in>set (map (\<lambda>idx. v ! idx) (take ?k ?a)).
             \<forall>y\<in>set (map (\<lambda>idx. v ! idx) (drop ?k ?a)). x \<le> y"
    by (simp add: sorted_append)
  with i' j show ?thesis by auto
qed

text \<open>A label whose probability is strictly the largest is the first candidate.\<close>

lemma top3_strict_maximum:
  assumes "argsort_contract np_argsort" "k < length v" "\<forall>j<length v. j \<noteq> k \<longrightarrow> v ! j < v ! k"
  shows "hd (top3_of np_argsort (Some v)) =
           (case labels_dict (int k) of Some c \<Rightarrow> c | None \<Rightarrow> ''?'' @ str_nat k, v ! k)"
proof -
  let ?t = "top3_indices np_argsort v"
  from length_top3_indices [OF assms(1), of v] assms(2) have ne: "?t \<noteq> []" by auto
  then have h: "hd ?t \<in> set ?t" by simp
  with top3_indices_set [OF assms(1), of v] have hl: "hd ?t < length v" by auto
  have "hd ?t = k"
  proof (rule ccontr)
    assume d: "hd ?t \<noteq> k"
    with assms(3) hl have lt: "v ! hd ?t < v ! k" by simp
    have "map (\<lambda>idx. v ! idx) ?t = take 3 (rev (sort v))"
      by (rule top3_indices_values [OF assms(1)])
    then have "rev (map (\<lambda>idx. v ! idx) ?t) = drop (length v - 3) (sort v)"
      by (simp add: rev_take)
    then have srt: "sorted (rev (map (\<lambda>idx. v ! idx) ?t))"
      by simp
    show False
    proof (cases "k \<in> set ?t")
      case True
      then obtain m where m: "m < length ?t" "?t ! m = k" by (auto simp add: in_set_conv_nth)
      have "rev (map (\<lambda>idx. v ! idx) ?t) ! (length ?t - 1 - m) = v ! k"
        using m by (simp add: rev_nth)
      moreover have "rev (map (\<lambda>idx. v ! idx) ?t) ! (length ?t - 1) = v ! hd ?t"
        using ne by (simp add: rev_nth hd_conv_nth)
      moreover have "rev (map (\<lambda>idx. v ! idx) ?t) ! (length ?t - 1 - m) \<le>
                     rev (map (\<lambda>idx. v ! idx) ?t) ! (length ?t - 1)"
        using srt ne by (intro sorted_nth_mono) auto
      ultimately show False using lt by simp
    next
      case False
      from top3_indices_dominate [OF assms(1,2) False h] lt show False by simp
    qed
  qed
  with ne show ?thesis by (simp add: top3_of_indices hd_map split: option.splits)
qed

lemma one_hot_first_candidate:
  assumes "argsort_contract np_argsort" "k < 35" "0 < p"
  shows "hd (top3_of np_argsort (Some (proba_for k p))) =
           (case labels_dict (int k) of Some c \<Rightarrow> c | None \<Rightarrow> ''?'' @ str_nat k, p)"
proof -
  have "\<forall>j<length (proba_for k p). j \<noteq> k \<longrightarrow> proba_for k p ! j < proba_for k p ! k"
    using assms(2,3) by (simp add: proba_for_def)
  from top3_strict_maximum [OF assms(1) _ this] assms(2) show ?thesis
    by (simp add: proba_for_def)
qed

lemma build_features_left_hand_frame:
  "build_features left_hand_frame = DataAux (hand_feats left_hand @ replicate 42 0)"
  by (simp add: left_hand_frame_def left_hand_def build_features_def pair_hands_def hand_label_def
      sort_paired_def per_hand_step_def hand_feat_len_def Let_def)

lemma hand_feats_left_hand: "hand_feats left_hand = [0, 0] @ concat (replicate 20 [1, 2])"
  by (simp add: hand_feats_def left_hand_def Let_def eval_nat_numeral)

lemma classify_H:
  "classify two_sign_model (replicate 84 0) = (''H'', Some (9/10), Some proba_H)"
  by (simp add: classify_def two_sign_model_def proba_H_def np_argmax_def np_max_def
      label_of_def labels_dict_def labels_list_def eval_nat_numeral)

lemma classify_I:
  "classify two_sign_model (hand_feats left_hand @ replicate 42 0) =
     (''I'', Some (9/10), Some proba_I)"
  by (simp add: hand_feats_left_hand classify_def two_sign_model_def proba_I_def np_argmax_def
      np_max_def label_of_def labels_dict_def labels_list_def eval_nat_numeral)

lemma top3_H: "top3_of stable_argsort (Some proba_H) = [(''H'', 9/10), (''I'', 6/100), (''J'', 4/100)]"
  by (simp add: top3_of_def top3_indices_def stable_argsort_def proba_H_def Let_def
      labels_dict_def labels_list_def eval_nat_numeral upt_rec)

text \<open>
  C8. A processed frame whose label is emitted appends exactly one event to the log: the
  label, its confidence, the buffer after the edit joined into one string, the action of
  the label and the top-3 candidates; a frame whose label is not emitted appends none and
  leaves the buffer alone. Whatever order \<^verbatim>\<open>np.argsort\<close> gives to equal probabilities, the
  candidates are the labels and probabilities of distinct indices of the distribution, three
  of them (fewer when the distribution is shorter, none when the model gives no
  distribution); their probabilities are the three largest in descending order, no index
  left out has a larger probability than a candidate, and a label whose probability is
  strictly the largest comes first. Emitting \<open>H\<close> then \<open>I\<close> from the initial state gives
  the buffer \<open>HI\<close> and two events.
\<close>

theorem emission_notification:
  "(should_emit L p (s\<lparr>frames_since_last_char := frames_since_last_char s + 1\<rparr>) \<longrightarrow>
      emitted (processed_frame np_argsort (L, p, v) s) =
        emitted s @
          [\<lparr>character = L, confidence = p,
            text_buffer_joined = get_text_buffer (processed_frame np_argsort (L, p, v) s),
            action = ACTION_GESTURES L, top3 = top3_of np_argsort v\<rparr>])
   \<and> (\<not> should_emit L p (s\<lparr>frames_since_last_char := frames_since_last_char s + 1\<rparr>) \<longrightarrow>
      emitted (processed_frame np_argsort (L, p, v) s) = emitted s
      \<and> text_buffer (processed_frame np_argsort (L, p, v) s) = text_buffer s)
   \<and> top3_of np_argsort None = []
   \<and> top3_of np_argsort (Some vec) =
       map (\<lambda>idx. (case labels_dict (int idx) of Some c \<Rightarrow> c | None \<Rightarrow> ''?'' @ str_nat idx,
                    vec ! idx))
         (top3_indices np_argsort vec)
   \<and> (argsort_contract np_argsort \<longrightarrow>
        length (top3_of np_argsort (Some vec)) = min 3 (length vec)
      \<and> map snd (top3_of np_argsort (Some vec)) = take 3 (rev (sort vec))
      \<and> distinct (top3_indices np_argsort vec)
      \<and> set (top3_indices np_argsort vec) \<subseteq> {0..<length vec}
      \<and> (\<forall>i j. i < length vec \<and> i \<notin> set (top3_indices np_argsort vec) \<and>
                j \<in> set (top3_indices np_argsort vec) \<longrightarrow> vec ! i \<le> vec ! j)
      \<and> (\<forall>k. k < length vec \<and> (\<forall>j<length vec. j \<noteq> k \<longrightarrow> vec ! j < vec ! k) \<longrightarrow>
             hd (top3_of np_argsort (Some vec)) =
               (case labels_dict (int k) of Some c \<Rightarrow> c | None \<Rightarrow> ''?'' @ str_nat k,
                vec ! k)))
   \<and> (passed_threshold ''H'' p1 \<and> passed_threshold ''I'' p2 \<longrightarrow>
        get_text_buffer
          (processed_frame np_argsort (''I'', p2, v2)
             (processed_frame np_argsort (''H'', p1, v1) (initial_state m)))
          = ''HI''
      \<and> length (emitted
          (processed_frame np_argsort (''I'', p2, v2)
             (processed_frame np_argsort (''H'', p1, v1) (initial_state m))))
          = 2
      \<and> map character (emitted
          (processed_frame np_argsort (''I'', p2, v2)
             (processed_frame np_argsort (''H'', p1, v1) (initial_state m))))
          = [''H'', ''I'']
      \<and> map text_buffer_joined (emitted
          (processed_frame np_argsort (''I'', p2, v2)
             (processed_frame np_argsort (''H'', p1, v1) (initial_state m))))
          = [''H'', ''HI''])"
proof (intro conjI)
  show "should_emit L p (s\<lparr>frames_since_last_char := frames_since_last_char s + 1\<rparr>) \<longrightarrow>
      emitted (processed_frame np_argsort (L, p, v) s) =
        emitted s @
          [\<lparr>character = L, confidence = p,
            text_buffer_joined = get_text_buffer (processed_frame np_argsort (L, p, v) s),
            action = ACTION_GESTURES L, top3 = top3_of np_argsort v\<rparr>]"
    by (simp add: processed_frame_def debounce_update_def Let_def get_text_buffer_def)
  show "\<not> should_emit L p (s\<lparr>frames_since_last_char := frames_since_last_char s + 1\<rparr>) \<longrightarrow>
      emitted (processed_frame np_argsort (L, p, v) s) = emitted s
      \<and> text_buffer (processed_frame np_argsort (L, p, v) s) = text_buffer s"
    by (simp add: processed_frame_def debounce_update_def)
  show "top3_of np_argsort None = []" by (simp add: top3_of_def)
  show "top3_of np_argsort (Some vec) =
       map (\<lambda>idx. (case labels_dict (int idx) of Some c \<Rightarrow> c | None \<Rightarrow> ''?'' @ str_nat idx,
                    vec ! idx))
         (top3_indices np_argsort vec)"
    by (rule top3_of_indices)
  show "argsort_contract np_argsort \<longrightarrow>
        length (top3_of np_argsort (Some vec)) = min 3 (length vec)
      \<and> map snd (top3_of np_argsort (Some vec)) = take 3 (rev (sort vec))
      \<and> distinct (top3_indices np_argsort vec)
      \<and> set (top3_indices np_argsort vec) \<subseteq> {0..<length vec}
      \<and> (\<forall>i j. i < length vec \<and> i \<notin> set (top3_indices np_argsort vec) \<and>
                j \<in> set (top3_indices np_argsort vec) \<longrightarrow> vec ! i \<le> vec ! j)
      \<and> (\<forall>k. k < length vec \<and> (\<forall>j<length vec. j \<noteq> k \<longrightarrow> vec ! j < vec ! k) \<longrightarrow>
             hd (top3_of np_argsort (Some vec)) =
               (case labels_dict (int k) of Some c \<Rightarrow> c | None \<Rightarrow> ''?'' @ str_nat k,
                vec ! k))"
  proof (intro impI conjI allI)
    assume c: "argsort_contract np_argsort"
    show "length (top3_of np_argsort (Some vec)) = min 3 (length vec)"
      by (simp add: top3_of_indices length_top3_indices [OF c])
    show "map snd (top3_of np_argsort (Some vec)) = take 3 (rev (sort vec))"
      by (rule top3_of_probs [OF c])
    show "distinct (top3_indices np_argsort vec)"
      by (rule top3_indices_distinct [OF c])
    show "set (top3_indices np_argsort vec) \<subseteq> {0..<length vec}"
      by (rule top3_indices_set [OF c])
    show "vec ! i \<le> vec ! j"
      if "i < length vec \<and> i \<notin> set (top3_indices np_argsort vec) \<and>
          j \<in> set (top3_indices np_argsort vec)" for i j
      using that top3_indices_dominate [OF c, of i vec j] by simp
    show "hd (top3_of np_argsort (Some vec)) =
               (case labels_dict (int k) of Some c \<Rightarrow> c | None \<Rightarrow> ''?'' @ str_nat k,
                vec ! k)"
      if "k < length vec \<and> (\<forall>j<length vec. j \<noteq> k \<longrightarrow> vec ! j < vec ! k)" for k
      using that top3_strict_maximum [OF c, of k vec] by simp
  qed
  show "passed_threshold ''H'' p1 \<and> passed_threshold ''I'' p2 \<longrightarrow>
        get_text_buffer
          (processed_frame np_argsort (''I'', p2, v2)
             (processed_frame np_argsort (''H'', p1, v1) (initial_state m)))
          = ''HI''
      \<and> length (emitted
          (processed_frame np_argsort (''I'', p2, v2)
             (processed_frame np_argsort (''H'', p1, v1) (initial_state m))))
          = 2
      \<and> map character (emitted
          (processed_frame np_argsort (''I'', p2, v2)
             (processed_frame np_argsort (''H'', p1, v1) (initial_state m))))
          = [''H'', ''I'']
      \<and> map text_buffer_joined (emitted
          (processed_frame np_argsort (''I'', p2, v2)
             (processed_frame np_argsort (''H'', p1, v1) (initial_state m))))
          = [''H'', ''HI'']"
    by (simp add: processed_frame_def debounce_update_def Let_def get_text_buffer_def
      join_def should_emit_def initial_state_def dispatch_def ACTION_GESTURES_def)
qed

lemma top3_I: "top3_of stable_argsort (Some proba_I) = [(''I'', 9/10), (''H'', 6/100), (''J'', 4/100)]"
  by (simp add: top3_of_def top3_indices_def stable_argsort_def proba_I_def Let_def
      labels_dict_def labels_list_def eval_nat_numeral upt_rec)

theorem emission_notification_witness:
  "emitted (snd (process_frame stable_argsort left_hand_frame
      (snd (process_frame stable_argsort one_hand_frame (initial_state (Some two_sign_model))))))
   = [\<lparr>character = ''H'', confidence = Some (9/10), text_buffer_joined = ''H'',
       action = None, top3 = [(''H'', 9/10), (''I'', 6/100), (''J'', 4/100)]\<rparr>,
      \<lparr>character = ''I'', confidence = Some (9/10), text_buffer_joined = ''HI'',
       action = None, top3 = [(''I'', 9/10), (''H'', 6/100), (''J'', 4/100)]\<rparr>]
   \<and> get_text_buffer (snd (process_frame stable_argsort left_hand_frame
      (snd (process_frame stable_argsort one_hand_frame (initial_state (Some two_sign_model)))))) = ''HI''
   \<and> hd (top3_of stable_argsort (Some (proba_for 9 (9/10)))) = (''A'', 9/10)
   \<and> length (top3_of stable_argsort (Some (proba_for 9 (9/10)))) = 3"
proof -
  let ?s0 = "initial_state (Some two_sign_model)"
  let ?s1 = "processed_frame stable_argsort (''H'', Some (9/10), Some proba_H) ?s0"
  let ?s2 = "processed_frame stable_argsort (''I'', Some (9/10), Some proba_I) ?s1"
  have m0: "model ?s0 = Some two_sign_model" by (simp add: initial_state_def)
  have s1: "snd (process_frame stable_argsort one_hand_frame ?s0) = ?s1"
    by (simp add: process_frame_classified [OF m0 build_features_one_hand_frame] classify_H)
  have m1: "model ?s1 = Some two_sign_model" using m0 by simp
  have l: "length (hand_feats left_hand @ replicate 42 0) = 84"
    by (simp add: length_hand_feats left_hand_def)
  have s2: "snd (process_frame stable_argsort left_hand_frame ?s1) = ?s2"
    by (simp add: process_frame_classified [OF m1 build_features_left_hand_frame l] classify_I)
  have e1: "should_emit ''H'' (Some (9/10))
              (?s0\<lparr>frames_since_last_char := frames_since_last_char ?s0 + 1\<rparr>)"
    by (simp add: should_emit_def initial_state_def gate_defs)
  have t1: "last_predicted_character ?s1 = Some ''H''" "text_buffer ?s1 = [''H'']"
    using e1 by (simp_all add: processed_frame_def debounce_update_def Let_def dispatch_def
        ACTION_GESTURES_def initial_state_def)
  have e2: "should_emit ''I'' (Some (9/10))
              (?s1\<lparr>frames_since_last_char := frames_since_last_char ?s1 + 1\<rparr>)"
    using t1 by (simp add: should_emit_def gate_defs)
  have t2: "text_buffer ?s2 = [''H'', ''I'']"
    using e2 t1 by (simp add: processed_frame_def debounce_update_def Let_def dispatch_def
        ACTION_GESTURES_def)
  have a: "ACTION_GESTURES ''H'' = None" "ACTION_GESTURES ''I'' = None"
    by (simp_all add: ACTION_GESTURES_def)
  have "emitted ?s1 = [\<lparr>character = ''H'', confidence = Some (9/10), text_buffer_joined = ''H'',
       action = None, top3 = [(''H'', 9/10), (''I'', 6/100), (''J'', 4/100)]\<rparr>]"
    using emission_notification [where L = "''H''" and p = "Some (9/10)" and s = ?s0
        and v = "Some proba_H" and np_argsort = stable_argsort] e1 t1 a
    by (simp add: top3_H get_text_buffer_def join_def initial_state_def)
  moreover have "emitted ?s2 = emitted ?s1 @
      [\<lparr>character = ''I'', confidence = Some (9/10), text_buffer_joined = ''HI'',
       action = None, top3 = [(''I'', 9/10), (''H'', 6/100), (''J'', 4/100)]\<rparr>]"
    using emission_notification [where L = "''I''" and p = "Some (9/10)" and s = ?s1
        and v = "Some proba_I" and np_argsort = stable_argsort] e2 t2 a
    by (simp add: top3_I get_text_buffer_def join_def)
  moreover note c = stable_argsort_contract
  note en = emission_notification
    [where np_argsort = stable_argsort and vec = "proba_for 9 (9/10)"]
  note tc = en [THEN conjunct2, THEN conjunct2, THEN conjunct2, THEN conjunct2,
      THEN conjunct1, THEN mp, OF c]
  have sm: "9 < length (proba_for 9 (9/10)) \<and>
      (\<forall>j<length (proba_for 9 (9/10)). j \<noteq> 9 \<longrightarrow>
         proba_for 9 (9/10) ! j < proba_for 9 (9/10) ! 9)"
    by (simp add: proba_for_def)
  from tc [THEN conjunct2, THEN conjunct2, THEN conjunct2, THEN conjunct2, THEN conjunct2,
      THEN spec, THEN mp, OF sm]
  have "hd (top3_of stable_argsort (Some (proba_for 9 (9/10)))) = (''A'', 9/10)"
    by (simp add: proba_for_def labels_dict_def labels_list_def)
  moreover from tc [THEN conjunct1]
  have "length (top3_of stable_argsort (Some (proba_for 9 (9/10)))) = 3"
    by (simp add: proba_for_def)
  ultimately show ?thesis
    using t2 by (simp add: s1 s2 get_text_buffer_def join_def)
qed

section \<open>Letters bound to actions\<close>

lemma label_of_range: "label_of k = ''Unknown'' \<or> label_of k \<in> snd ` set labels_list"
proof (cases "map_of labels_list k")
  case None
  then show ?thesis by (simp add: label_of_def labels_dict_def)
next
  case (Some c)
  then have "(k, c) \<in> set labels_list" by (rule map_of_SomeD)
  then have "snd (k, c) \<in> snd ` set labels_list" by (rule imageI)
  then show ?thesis using Some by (simp add: label_of_def labels_dict_def)
qed

lemma classify_range:
  "fst (classify m d) = ''Unknown'' \<or> fst (classify m d) \<in> snd ` set labels_list"
proof (cases m)
  case (ProbaModel f)
  then show ?thesis using label_of_range [of "int (np_argmax (the (f d)))"]
    by (cases "f d") (simp_all add: classify_def)
next
  case (HardModel f)
  then show ?thesis using label_of_range [of "the (f d)"]
    by (cases "f d") (simp_all add: classify_def)
qed


lemma labels_single_chars:
  "map snd labels_list = map (\<lambda>c. [c]) ''123456789ABCDEFGHIJKLMNOPQRSTUVWXYZ''"
  by (simp add: labels_list_def)

lemma labels_action_or_plain:
  assumes "L \<in> snd ` set labels_list"
  shows "L = ''S'' \<or> L = ''B'' \<or> L = ''D'' \<or>
         (ACTION_GESTURES L = None \<and> set L \<inter> {CHR ''S'', CHR ''B'', CHR ''D''} = {})"
proof -
  from assms have "L \<in> set (map snd labels_list)" by simp
  then obtain c where L: "L = [c]"
    unfolding labels_single_chars by auto
  show ?thesis
  proof (cases "c = CHR ''S'' \<or> c = CHR ''B'' \<or> c = CHR ''D''")
    case True
    then show ?thesis using L by auto
  next
    case False
    then show ?thesis using L by (simp add: ACTION_GESTURES_def)
  qed
qed

lemma butlast_keeps_letters_out:
  assumes "set (concat buf) \<inter> {CHR ''S'', CHR ''B'', CHR ''D''} = {}"
  shows "set (concat (butlast buf)) \<inter> {CHR ''S'', CHR ''B'', CHR ''D''} = {}"
proof -
  have "set (butlast buf) \<subseteq> set buf" by (auto dest: in_set_butlastD)
  then have "set (concat (butlast buf)) \<subseteq> set (concat buf)" by auto
  then show ?thesis using assms by blast
qed

lemma dispatch_keeps_letters_out:
  assumes "L \<in> snd ` set labels_list"
    and "set (concat buf) \<inter> {CHR ''S'', CHR ''B'', CHR ''D''} = {}"
  shows "set (concat (dispatch (ACTION_GESTURES L) L buf)) \<inter> {CHR ''S'', CHR ''B'', CHR ''D''} = {}"
  using labels_action_or_plain [OF assms(1)]
proof (elim disjE conjE)
  assume "L = ''S''"
  then show ?thesis using assms(2) by (simp add: dispatch_def ACTION_GESTURES_def)
next
  assume "L = ''B''"
  then show ?thesis using butlast_keeps_letters_out [OF assms(2)]
    by (simp add: dispatch_def ACTION_GESTURES_def)
next
  assume "L = ''D''"
  then show ?thesis by (simp add: dispatch_def ACTION_GESTURES_def)
next
  assume "ACTION_GESTURES L = None" "set L \<inter> {CHR ''S'', CHR ''B'', CHR ''D''} = {}"
  then show ?thesis using assms(2) by (simp add: dispatch_def Int_Un_distrib2)
qed

lemma processed_frame_keeps_letters_out:
  assumes "fst c = ''Unknown'' \<or> fst c \<in> snd ` set labels_list"
    and "set (concat (text_buffer s)) \<inter> {CHR ''S'', CHR ''B'', CHR ''D''} = {}"
  shows "set (concat (text_buffer (processed_frame np_argsort c s))) \<inter> {CHR ''S'', CHR ''B'', CHR ''D''} = {}"
proof (cases c)
  case (fields L p v)
  show ?thesis
  proof (cases "should_emit L p (s\<lparr>frames_since_last_char := frames_since_last_char s + 1\<rparr>)")
    case True
    then have "L \<noteq> ''Unknown''" by (simp add: should_emit_def)
    then have "L \<in> snd ` set labels_list"
      using assms(1) fields by simp
    from dispatch_keeps_letters_out [OF this assms(2)] True fields show ?thesis
      by (simp add: processed_frame_def debounce_update_def Let_def)
  next
    case False
    then show ?thesis using assms(2) fields
      by (simp add: processed_frame_def debounce_update_def)
  qed
qed

lemma process_frame_keeps_letters_out:
  assumes "set (concat (text_buffer s)) \<inter> {CHR ''S'', CHR ''B'', CHR ''D''} = {}"
  shows "set (concat (text_buffer (snd (process_frame np_argsort results s)))) \<inter>
           {CHR ''S'', CHR ''B'', CHR ''D''} = {}"
proof (cases "model s")
  case None
  then show ?thesis using assms by (simp add: process_frame_def)
next
  case (Some m)
  show ?thesis
  proof (cases "build_features results")
    case NoHands
    then show ?thesis using assms Some by (simp add: process_frame_def)
  next
    case NoLandmarks
    then show ?thesis using assms Some by (simp add: process_frame_def)
  next
    case (DataAux data_aux)
    then show ?thesis
      using assms Some processed_frame_keeps_letters_out
        [OF classify_range [of m data_aux] assms, where np_argsort = np_argsort]
      by (simp add: process_frame_def Let_def)
  qed
qed

lemma operations_keep_letters_out:
  assumes "set (get_text_buffer s) \<inter> {CHR ''S'', CHR ''B'', CHR ''D''} = {}"
  shows "set (get_text_buffer (snd (process_frame np_argsort results s))) \<inter>
           {CHR ''S'', CHR ''B'', CHR ''D''} = {}"
    and "set (get_text_buffer (snd (start_detection s))) \<inter> {CHR ''S'', CHR ''B'', CHR ''D''} = {}"
    and "set (get_text_buffer (snd (stop_detection s))) \<inter> {CHR ''S'', CHR ''B'', CHR ''D''} = {}"
    and "set (get_text_buffer (snd (clear_buffer s))) \<inter> {CHR ''S'', CHR ''B'', CHR ''D''} = {}"
  using assms process_frame_keeps_letters_out
      [where s = s and results = results and np_argsort = np_argsort]
  by (simp_all add: get_text_buffer_def join_def start_detection_def stop_detection_def
      clear_buffer_def)

lemma reachable_keeps_letters_out:
  "reachable np_argsort s \<Longrightarrow> set (get_text_buffer s) \<inter> {CHR ''S'', CHR ''B'', CHR ''D''} = {}"
proof (induction rule: reachable.induct)
  case (after_import m)
  show ?case by (simp add: initial_state_def get_text_buffer_def join_def)
next
  case (after_start s)
  from after_start.IH show ?case by (rule operations_keep_letters_out)
next
  case (after_stop s)
  from after_stop.IH show ?case by (rule operations_keep_letters_out)
next
  case (after_clear s)
  from after_clear.IH show ?case by (rule operations_keep_letters_out)
next
  case (after_frame s results)
  from after_frame.IH show ?case by (rule operations_keep_letters_out)
qed

text \<open>
  C10. The labels \<open>S\<close>, \<open>B\<close> and \<open>D\<close> of the label set are bound to SPACE, BACKSPACE and
  DELETE. No reachable state has one of the three characters in its text buffer, and each
  operation of the server keeps them out of a buffer that has none.
\<close>

theorem action_letters_never_in_buffer:
  "ACTION_GESTURES ''S'' = Some ''SPACE'' \<and> ACTION_GESTURES ''B'' = Some ''BACKSPACE''
   \<and> ACTION_GESTURES ''D'' = Some ''DELETE''
   \<and> labels_dict 27 = Some ''S'' \<and> labels_dict 10 = Some ''B'' \<and> labels_dict 12 = Some ''D''
   \<and> (reachable np_argsort s \<longrightarrow> set (get_text_buffer s) \<inter> {CHR ''S'', CHR ''B'', CHR ''D''} = {})
   \<and> (set (get_text_buffer s) \<inter> {CHR ''S'', CHR ''B'', CHR ''D''} = {} \<longrightarrow>
        set (get_text_buffer (snd (process_frame np_argsort results s))) \<inter>
          {CHR ''S'', CHR ''B'', CHR ''D''} = {}
      \<and> set (get_text_buffer (snd (start_detection s))) \<inter> {CHR ''S'', CHR ''B'', CHR ''D''} = {}
      \<and> set (get_text_buffer (snd (stop_detection s))) \<inter> {CHR ''S'', CHR ''B'', CHR ''D''} = {}
      \<and> set (get_text_buffer (snd (clear_buffer s))) \<inter> {CHR ''S'', CHR ''B'', CHR ''D''} = {})"
proof (intro conjI impI)
  show "ACTION_GESTURES ''S'' = Some ''SPACE''" "ACTION_GESTURES ''B'' = Some ''BACKSPACE''"
    "ACTION_GESTURES ''D'' = Some ''DELETE''"
    by (simp_all add: ACTION_GESTURES_def)
  show "labels_dict 27 = Some ''S''" "labels_dict 10 = Some ''B''" "labels_dict 12 = Some ''D''"
    by (simp_all add: labels_dict_def labels_list_def)
qed (erule reachable_keeps_letters_out operations_keep_letters_out)+

theorem action_letters_never_in_buffer_witness:
  "set (get_text_buffer (snd (process_frame stable_argsort one_hand_frame
          (initial_state (Some (fixed_model 27 (9/10))))))) \<inter>
     {CHR ''S'', CHR ''B'', CHR ''D''} = {}
   \<and> reachable stable_argsort (snd (process_frame stable_argsort one_hand_frame (initial_state (Some (fixed_model 27 (9/10))))))"
proof -
  have r: "reachable stable_argsort (snd (process_frame stable_argsort one_hand_frame
            (initial_state (Some (fixed_model 27 (9/10))))))"
    by (intro reachable.intros)
  note c = action_letters_never_in_buffer
    [where s = "snd (process_frame stable_argsort one_hand_frame
                     (initial_state (Some (fixed_model 27 (9/10)))))"
       and np_argsort = stable_argsort]
  note c7 = c [THEN conjunct2, THEN conjunct2, THEN conjunct2, THEN conjunct2,
      THEN conjunct2, THEN conjunct2, THEN conjunct1]
  from c7 [THEN mp, OF r] r show ?thesis by (rule conjI)
qed

end
